theory Spec2Isabelle
  imports Main
begin

section \<open>Data model\<close>

text \<open>
  \<^verbatim>\<open>backend/models.py\<close>: the pydantic class \<^verbatim>\<open>Task\<close> with the fields
  \<^verbatim>\<open>id: int, name: str, desc: str, status: bool\<close>. The field names carry the
  prefix \<open>t_\<close> (\<open>id\<close> is the identity function of HOL, and the request models
  below have fields of the same names).
\<close>

record Task =
  t_id :: int
  t_name :: string
  t_desc :: string
  t_status :: bool

text \<open>
  \<^verbatim>\<open>backend/main.py\<close>: the request models. \<^verbatim>\<open>TaskCreate\<close> has
  \<^verbatim>\<open>name: str, desc: str, status: bool = False\<close>; every field of
  \<^verbatim>\<open>TaskUpdate\<close> is \<^verbatim>\<open>Optional[...] = None\<close>.
\<close>

record TaskCreate =
  c_name :: string
  c_desc :: string
  c_status :: bool

record TaskUpdate =
  u_name :: "string option"
  u_desc :: "string option"
  u_status :: "bool option"

text \<open>
  A request body as it arrives, before pydantic shapes it into a \<^verbatim>\<open>TaskUpdate\<close>:
  each key is absent, present with the JSON value \<^verbatim>\<open>null\<close>, or present with a value.
\<close>

datatype 'a field = Omitted | Null | Supplied 'a

fun optional_default_None :: "'a field \<Rightarrow> 'a option" where
  "optional_default_None Omitted = None"
| "optional_default_None Null = None"
| "optional_default_None (Supplied v) = Some v"

definition parse_TaskUpdate :: "string field \<Rightarrow> string field \<Rightarrow> bool field \<Rightarrow> TaskUpdate" where
  "parse_TaskUpdate n d s =
     \<lparr>u_name = optional_default_None n,
      u_desc = optional_default_None d,
      u_status = optional_default_None s\<rparr>"

section \<open>The storage: the table \<open>tasks\<close>\<close>

text \<open>
  The schema of \<^verbatim>\<open>init_db\<close>:
  \<^verbatim>\<open>tasks(id INTEGER PRIMARY KEY AUTOINCREMENT, name TEXT NOT NULL,
  desc TEXT NOT NULL, status BOOLEAN NOT NULL DEFAULT 0)\<close>.
  A row holds the id, two texts and the status as the integer the engine stores for a
  Python \<^verbatim>\<open>bool\<close> (0 or 1); all columns are \<^verbatim>\<open>NOT NULL\<close>, so a cell has no
  null value. The table is the list of its rows in the order \<^verbatim>\<open>SELECT *\<close> returns
  them, together with the counter that \<^verbatim>\<open>AUTOINCREMENT\<close> keeps for the table
  (its entry in \<^verbatim>\<open>sqlite_sequence\<close>, 0 before the first insert).

  The model covers the statements the program executes, with ids inside the engine's
  integer range; faults of the storage itself (an unreadable file, a full disk, an
  exhausted id range) are outside it.
\<close>

record row =
  r_id :: int
  r_name :: string
  r_desc :: string
  r_status :: int

record tasks_table =
  tbl_rows :: "row list"
  tbl_seq :: int

definition empty_table :: tasks_table where
  "empty_table = \<lparr>tbl_rows = [], tbl_seq = 0\<rparr>"

text \<open>
  \<^verbatim>\<open>AUTOINCREMENT\<close>: the new id is one more than the largest id the table has
  ever held, which is the larger of the counter and the largest id present.
\<close>

definition next_rowid :: "tasks_table \<Rightarrow> int" where
  "next_rowid t = fold max (map r_id (tbl_rows t)) (tbl_seq t) + 1"

text \<open>The binding of a Python \<^verbatim>\<open>bool\<close> parameter, and \<^verbatim>\<open>bool(row['status'])\<close>.\<close>

definition bind_bool :: "bool \<Rightarrow> int" where
  "bind_bool b = (if b then 1 else 0)"

definition py_bool :: "int \<Rightarrow> bool" where
  "py_bool x = (x \<noteq> 0)"

text \<open>
  \<^verbatim>\<open>INSERT INTO tasks (name, desc, status) VALUES (?, ?, ?)\<close>; the second
  component is \<^verbatim>\<open>cursor.lastrowid\<close>.
\<close>

definition sql_insert :: "tasks_table \<Rightarrow> string \<Rightarrow> string \<Rightarrow> bool \<Rightarrow> tasks_table \<times> int" where
  "sql_insert t n d s =
     (let i = next_rowid t in
      (\<lparr>tbl_rows = tbl_rows t @ [\<lparr>r_id = i, r_name = n, r_desc = d, r_status = bind_bool s\<rparr>],
        tbl_seq = i\<rparr>, i))"

text \<open>\<^verbatim>\<open>SELECT * FROM tasks WHERE id = ?\<close> followed by \<^verbatim>\<open>fetchone()\<close>.\<close>

definition sql_select_by_id :: "tasks_table \<Rightarrow> int \<Rightarrow> row option" where
  "sql_select_by_id t i = find (\<lambda>r. r_id r = i) (tbl_rows t)"

text \<open>\<^verbatim>\<open>UPDATE tasks SET name = ?, desc = ?, status = ? WHERE id = ?\<close>.\<close>

definition sql_update :: "tasks_table \<Rightarrow> string \<Rightarrow> string \<Rightarrow> bool \<Rightarrow> int \<Rightarrow> tasks_table" where
  "sql_update t n d s i =
     t\<lparr>tbl_rows :=
         map (\<lambda>r. if r_id r = i then r\<lparr>r_name := n, r_desc := d, r_status := bind_bool s\<rparr> else r)
           (tbl_rows t)\<rparr>"

text \<open>
  \<^verbatim>\<open>DELETE FROM tasks WHERE id = ?\<close>; the second component is
  \<^verbatim>\<open>cursor.rowcount\<close>. The counter of \<^verbatim>\<open>AUTOINCREMENT\<close> stays.
\<close>

definition sql_delete :: "tasks_table \<Rightarrow> int \<Rightarrow> tasks_table \<times> int" where
  "sql_delete t i =
     (let kept = filter (\<lambda>r. r_id r \<noteq> i) (tbl_rows t) in
      (t\<lparr>tbl_rows := kept\<rparr>, int (length (tbl_rows t)) - int (length kept)))"

section \<open>\<^verbatim>\<open>backend/db.py\<close> and \<^verbatim>\<open>db.py\<close>: initialisation\<close>

definition default_tasks :: "(string \<times> string \<times> bool) list" where
  "default_tasks =
     [(''TASK-1'', ''First task to complete'', False),
      (''TASK-2'', ''Second task to complete'', False),
      (''TASK-3'', ''Third task to complete'', False)]"

text \<open>
  \<^verbatim>\<open>CREATE TABLE IF NOT EXISTS tasks\<close>: the argument is \<open>None\<close> when the database
  file has no table \<open>tasks\<close> yet.
\<close>

definition create_table_if_not_exists :: "tasks_table option \<Rightarrow> tasks_table" where
  "create_table_if_not_exists db = (case db of None \<Rightarrow> empty_table | Some t \<Rightarrow> t)"

text \<open>\<^verbatim>\<open>cursor.executemany\<close> of the insert statement over a list of parameter triples.\<close>

definition executemany_insert :: "tasks_table \<Rightarrow> (string \<times> string \<times> bool) list \<Rightarrow> tasks_table" where
  "executemany_insert t ps = fold (\<lambda>(n, d, s) t'. fst (sql_insert t' n d s)) ps t"

text \<open>\<^verbatim>\<open>init_db\<close> of \<^verbatim>\<open>backend/db.py\<close>, the one \<^verbatim>\<open>backend/main.py\<close> runs at startup.\<close>

definition init_db :: "tasks_table option \<Rightarrow> tasks_table" where
  "init_db db =
     (let t = create_table_if_not_exists db;
          task_count = int (length (tbl_rows t))
      in if task_count = 0 then executemany_insert t default_tasks else t)"

text \<open>\<^verbatim>\<open>init_db\<close> of the top-level \<^verbatim>\<open>db.py\<close>: it creates the table and inserts nothing.\<close>

definition init_db_toplevel :: "tasks_table option \<Rightarrow> tasks_table" where
  "init_db_toplevel db = create_table_if_not_exists db"

section \<open>\<^verbatim>\<open>core.py\<close>: the domain operations\<close>

text \<open>
  Each function opens a connection, executes its statements, commits and closes; the
  model passes the table in and returns it with the result when the function writes.
\<close>

definition task_of_row :: "row \<Rightarrow> Task" where
  "task_of_row r =
     \<lparr>t_id = r_id r, t_name = r_name r, t_desc = r_desc r, t_status = py_bool (r_status r)\<rparr>"

definition create_task :: "tasks_table \<Rightarrow> string \<Rightarrow> string \<Rightarrow> bool \<Rightarrow> tasks_table \<times> Task" where
  "create_task t n d s =
     (let (t', task_id) = sql_insert t n d s in
      (t', \<lparr>t_id = task_id, t_name = n, t_desc = d, t_status = s\<rparr>))"

definition get_all_tasks :: "tasks_table \<Rightarrow> Task list" where
  "get_all_tasks t = map task_of_row (tbl_rows t)"

definition get_task_by_id :: "tasks_table \<Rightarrow> int \<Rightarrow> Task option" where
  "get_task_by_id t task_id =
     (case sql_select_by_id t task_id of
        Some r \<Rightarrow> Some (task_of_row r)
      | None \<Rightarrow> None)"

definition update_task ::
  "tasks_table \<Rightarrow> int \<Rightarrow> string option \<Rightarrow> string option \<Rightarrow> bool option \<Rightarrow> tasks_table \<times> Task option"
where
  "update_task t task_id n d s =
     (case get_task_by_id t task_id of
        None \<Rightarrow> (t, None)
      | Some task \<Rightarrow>
          (let updated_name = (case n of Some v \<Rightarrow> v | None \<Rightarrow> t_name task);
               updated_desc = (case d of Some v \<Rightarrow> v | None \<Rightarrow> t_desc task);
               updated_status = (case s of Some v \<Rightarrow> v | None \<Rightarrow> t_status task)
           in (sql_update t updated_name updated_desc updated_status task_id,
               Some \<lparr>t_id = task_id, t_name = updated_name, t_desc = updated_desc,
                     t_status = updated_status\<rparr>)))"

definition delete_task :: "tasks_table \<Rightarrow> int \<Rightarrow> tasks_table \<times> bool" where
  "delete_task t task_id =
     (let (t', rowcount) = sql_delete t task_id;
          deleted = (rowcount > 0)
      in (t', deleted))"

section \<open>\<^verbatim>\<open>backend/main.py\<close>: the endpoints\<close>

text \<open>
  An endpoint returns its value (a response with status 200) or raises
  \<^verbatim>\<open>HTTPException(status_code, detail)\<close>.
\<close>

datatype 'a response = Returns 'a | HTTPException int string

definition create_new_task :: "tasks_table \<Rightarrow> TaskCreate \<Rightarrow> tasks_table \<times> Task response" where
  "create_new_task t task =
     (let (t', created) = create_task t (c_name task) (c_desc task) (c_status task) in
      (t', Returns created))"

definition get_tasks :: "tasks_table \<Rightarrow> Task list response" where
  "get_tasks t = Returns (get_all_tasks t)"

definition get_task :: "tasks_table \<Rightarrow> int \<Rightarrow> Task response" where
  "get_task t task_id =
     (case get_task_by_id t task_id of
        None \<Rightarrow> HTTPException 404 ''Task not found''
      | Some task \<Rightarrow> Returns task)"

definition update_existing_task ::
  "tasks_table \<Rightarrow> int \<Rightarrow> TaskUpdate \<Rightarrow> tasks_table \<times> Task response"
where
  "update_existing_task t task_id task_update =
     (case update_task t task_id (u_name task_update) (u_desc task_update) (u_status task_update) of
        (t', None) \<Rightarrow> (t', HTTPException 404 ''Task not found'')
      | (t', Some task) \<Rightarrow> (t', Returns task))"

definition delete_existing_task ::
  "tasks_table \<Rightarrow> int \<Rightarrow> tasks_table \<times> (string \<times> string) list response"
where
  "delete_existing_task t task_id =
     (let (t', deleted) = delete_task t task_id in
      if \<not> deleted then (t', HTTPException 404 ''Task not found'')
      else (t', Returns [(''message'', ''Task deleted successfully'')]))"

section \<open>Tables the program produces\<close>

text \<open>
  What the schema and the statements above maintain: the primary key is unique, no id
  exceeds the counter of \<^verbatim>\<open>AUTOINCREMENT\<close>, and the status column holds the
  integer of a bound \<^verbatim>\<open>bool\<close>.
\<close>

definition table_ok :: "tasks_table \<Rightarrow> bool" where
  "table_ok t =
     (distinct (map r_id (tbl_rows t)) \<and>
      list_all (\<lambda>r. r_id r \<le> tbl_seq t \<and> (r_status r = 0 \<or> r_status r = 1)) (tbl_rows t))"

definition row_ids :: "tasks_table \<Rightarrow> int set" where
  "row_ids t = set (map r_id (tbl_rows t))"

section \<open>Sequences of domain operations\<close>

text \<open>
  A call of \<^verbatim>\<open>create_task\<close>, \<^verbatim>\<open>update_task\<close> or \<^verbatim>\<open>delete_task\<close> with its
  arguments, and what the call returned.
\<close>

datatype op =
  Create string string bool
| Update int "string option" "string option" "bool option"
| Delete int

datatype outcome =
  Created Task
| Updated "Task option"
| Deleted int bool

fun step :: "tasks_table \<Rightarrow> op \<Rightarrow> tasks_table \<times> outcome" where
  "step t (Create n d s) = (let (t', task) = create_task t n d s in (t', Created task))"
| "step t (Update i n d s) = (let (t', r) = update_task t i n d s in (t', Updated r))"
| "step t (Delete i) = (let (t', deleted) = delete_task t i in (t', Deleted i deleted))"

fun run :: "tasks_table \<Rightarrow> op list \<Rightarrow> tasks_table \<times> outcome list" where
  "run t [] = (t, [])"
| "run t (x # xs) =
     (let (t', r) = step t x;
          (t'', rs) = run t' xs
      in (t'', r # rs))"

text \<open>The ids the calls of \<^verbatim>\<open>create_task\<close> returned, in the order of the calls.\<close>

fun created_ids :: "outcome list \<Rightarrow> int list" where
  "created_ids [] = []"
| "created_ids (Created task # rs) = t_id task # created_ids rs"
| "created_ids (Updated r # rs) = created_ids rs"
| "created_ids (Deleted i deleted # rs) = created_ids rs"

text \<open>The number of creates and of deletes in a sequence of calls.\<close>

fun count_creates :: "op list \<Rightarrow> nat" where
  "count_creates [] = 0"
| "count_creates (Create n d s # xs) = Suc (count_creates xs)"
| "count_creates (Update i n d s # xs) = count_creates xs"
| "count_creates (Delete i # xs) = count_creates xs"

fun count_deletes :: "op list \<Rightarrow> nat" where
  "count_deletes [] = 0"
| "count_deletes (Create n d s # xs) = count_deletes xs"
| "count_deletes (Update i n d s # xs) = count_deletes xs"
| "count_deletes (Delete i # xs) = Suc (count_deletes xs)"

text \<open>Every delete of the sequence removed a row: it was aimed at an id present then.\<close>

fun every_delete_removed :: "outcome list \<Rightarrow> bool" where
  "every_delete_removed [] = True"
| "every_delete_removed (Deleted i deleted # rs) = (deleted \<and> every_delete_removed rs)"
| "every_delete_removed (Created task # rs) = every_delete_removed rs"
| "every_delete_removed (Updated r # rs) = every_delete_removed rs"

text \<open>
  The reference the listing is compared with, in the words of the specification: for
  each id, the last state written for it. A create and a successful update write the
  task they return; a successful delete removes the id.
\<close>

fun last_written :: "(int \<rightharpoonup> Task) \<Rightarrow> outcome list \<Rightarrow> (int \<rightharpoonup> Task)" where
  "last_written m [] = m"
| "last_written m (Created task # rs) = last_written (m(t_id task \<mapsto> task)) rs"
| "last_written m (Updated (Some task) # rs) = last_written (m(t_id task \<mapsto> task)) rs"
| "last_written m (Updated None # rs) = last_written m rs"
| "last_written m (Deleted i True # rs) = last_written (m(i := None)) rs"
| "last_written m (Deleted i False # rs) = last_written m rs"

section \<open>Sequences of requests\<close>

datatype request =
  POST_tasks TaskCreate
| GET_tasks
| GET_task int
| PUT_task int TaskUpdate
| DELETE_task int

text \<open>The table after the endpoint of a request has run.\<close>

fun handle :: "tasks_table \<Rightarrow> request \<Rightarrow> tasks_table" where
  "handle t (POST_tasks task) = fst (create_new_task t task)"
| "handle t GET_tasks = t"
| "handle t (GET_task task_id) = t"
| "handle t (PUT_task task_id task_update) = fst (update_existing_task t task_id task_update)"
| "handle t (DELETE_task task_id) = fst (delete_existing_task t task_id)"

definition serve :: "tasks_table \<Rightarrow> request list \<Rightarrow> tasks_table" where
  "serve t reqs = foldl handle t reqs"

text \<open>The names a request supplies: that of a create, and that of an update when it has one.\<close>

fun supplied_names :: "request \<Rightarrow> string list" where
  "supplied_names (POST_tasks task) = [c_name task]"
| "supplied_names (PUT_task task_id task_update) =
     (case u_name task_update of Some n \<Rightarrow> [n] | None \<Rightarrow> [])"
| "supplied_names GET_tasks = []"
| "supplied_names (GET_task task_id) = []"
| "supplied_names (DELETE_task task_id) = []"

definition names_nonempty :: "tasks_table \<Rightarrow> bool" where
  "names_nonempty t = list_all (\<lambda>task. t_name task \<noteq> []) (get_all_tasks t)"

section \<open>Basic facts about the statements\<close>

lemma fold_max_ge_init: "(a::int) \<le> fold max xs a"
proof (induction xs arbitrary: a)
  case Nil
  show ?case by simp
next
  case (Cons x xs)
  have "a \<le> max x a" by simp
  also have "max x a \<le> fold max xs (max x a)" by (rule Cons.IH)
  finally show ?case by simp
qed

lemma fold_max_ge_elem: "(x::int) \<in> set xs \<Longrightarrow> x \<le> fold max xs a"
proof (induction xs arbitrary: a)
  case Nil
  then show ?case by simp
next
  case (Cons y ys)
  show ?case
  proof (cases "x = y")
    case True
    have "x \<le> max y a" using True by simp
    also have "max y a \<le> fold max ys (max y a)" by (rule fold_max_ge_init)
    finally show ?thesis by simp
  next
    case False
    with Cons.prems have "x \<in> set ys" by simp
    then show ?thesis using Cons.IH by simp
  qed
qed

lemma next_rowid_gt_seq: "tbl_seq t < next_rowid t"
  using fold_max_ge_init [of "tbl_seq t" "map r_id (tbl_rows t)"]
  by (simp add: next_rowid_def)

lemma next_rowid_gt_row: "r \<in> set (tbl_rows t) \<Longrightarrow> r_id r < next_rowid t"
  using fold_max_ge_elem [of "r_id r" "map r_id (tbl_rows t)" "tbl_seq t"]
  by (auto simp: next_rowid_def)

lemma find_append_fresh:
  "\<forall>r \<in> set rs. \<not> P r \<Longrightarrow> P x \<Longrightarrow> find P (rs @ [x]) = Some x"
  by (induction rs) auto

lemma py_bool_bind_bool: "py_bool (bind_bool b) = b"
  by (simp add: py_bool_def bind_bool_def)

section \<open>Round trip of a created task\<close>

text \<open>
  C1. For every table, name, description and status, \<open>create_task\<close> returns the task
  made of the assigned id and the three inputs, and \<open>get_task_by_id\<close> on that id in
  the resulting table returns that same task.
\<close>

theorem create_then_get_roundtrip:
  "(case create_task t n d s of
      (t', task) \<Rightarrow>
        get_task_by_id t' (t_id task) = Some task \<and>
        task = \<lparr>t_id = t_id task, t_name = n, t_desc = d, t_status = s\<rparr>)"
proof -
  let ?i = "next_rowid t"
  let ?r = "\<lparr>r_id = ?i, r_name = n, r_desc = d, r_status = bind_bool s\<rparr>"
  let ?t' = "fst (create_task t n d s)"
  have res: "create_task t n d s = (?t', \<lparr>t_id = ?i, t_name = n, t_desc = d, t_status = s\<rparr>)"
    and rows': "tbl_rows ?t' = tbl_rows t @ [?r]"
    by (simp_all add: create_task_def sql_insert_def Let_def)
  have fresh: "\<forall>r \<in> set (tbl_rows t). \<not> (r_id r = ?i)"
    using next_rowid_gt_row [of _ t] by fastforce
  have "find (\<lambda>r. r_id r = ?i) (tbl_rows t @ [?r]) = Some ?r"
    using fresh by (intro find_append_fresh) simp_all
  then have "get_task_by_id ?t' ?i = Some (task_of_row ?r)"
    by (simp add: get_task_by_id_def sql_select_by_id_def rows')
  then have "get_task_by_id ?t' ?i = Some \<lparr>t_id = ?i, t_name = n, t_desc = d, t_status = s\<rparr>"
    by (simp add: task_of_row_def py_bool_bind_bool)
  then show ?thesis
    by (subst res) simp
qed

section \<open>Initialisation and the seed tasks\<close>

lemma init_db_fresh:
  "init_db None =
     \<lparr>tbl_rows =
        [\<lparr>r_id = 1, r_name = ''TASK-1'', r_desc = ''First task to complete'', r_status = 0\<rparr>,
         \<lparr>r_id = 2, r_name = ''TASK-2'', r_desc = ''Second task to complete'', r_status = 0\<rparr>,
         \<lparr>r_id = 3, r_name = ''TASK-3'', r_desc = ''Third task to complete'', r_status = 0\<rparr>],
      tbl_seq = 3\<rparr>"
  by (simp add: init_db_def create_table_if_not_exists_def empty_table_def
      executemany_insert_def default_tasks_def sql_insert_def next_rowid_def bind_bool_def Let_def)

lemma init_db_empty_rows:
  assumes "tbl_rows t = []"
  shows "init_db (Some t) =
     \<lparr>tbl_rows =
        [\<lparr>r_id = tbl_seq t + 1, r_name = ''TASK-1'', r_desc = ''First task to complete'', r_status = 0\<rparr>,
         \<lparr>r_id = tbl_seq t + 2, r_name = ''TASK-2'', r_desc = ''Second task to complete'', r_status = 0\<rparr>,
         \<lparr>r_id = tbl_seq t + 3, r_name = ''TASK-3'', r_desc = ''Third task to complete'', r_status = 0\<rparr>],
      tbl_seq = tbl_seq t + 3\<rparr>"
  using assms
  by (simp add: init_db_def create_table_if_not_exists_def
      executemany_insert_def default_tasks_def sql_insert_def next_rowid_def bind_bool_def Let_def)

lemma init_db_nonempty_rows: "tbl_rows t \<noteq> [] \<Longrightarrow> init_db (Some t) = t"
  by (simp add: init_db_def create_table_if_not_exists_def)

lemma init_db_rows_nonempty: "tbl_rows (init_db db) \<noteq> []"
proof (cases "tbl_rows (create_table_if_not_exists db) = []")
  case True
  then have "init_db db = init_db (Some (create_table_if_not_exists db))"
    by (simp add: init_db_def create_table_if_not_exists_def)
  then show ?thesis using init_db_empty_rows [OF True] by simp
next
  case False
  then show ?thesis by (simp add: init_db_def)
qed

text \<open>
  The \<^verbatim>\<open>init_db\<close> of the top-level \<^verbatim>\<open>db.py\<close> has no seeding step: on a fresh
  database it leaves the table empty. The endpoints of \<^verbatim>\<open>backend/main.py\<close> start
  from the \<^verbatim>\<open>init_db\<close> beside them, which the theorem below is about.
\<close>

lemma init_db_toplevel_inserts_nothing:
  "init_db_toplevel None = empty_table \<and> init_db_toplevel (Some t) = t \<and>
   get_all_tasks (init_db_toplevel None) = []"
  by (simp add: init_db_toplevel_def create_table_if_not_exists_def empty_table_def get_all_tasks_def)

text \<open>
  C2. On a database without the table, \<open>init_db\<close> creates it and the listing then
  holds exactly the three seed tasks TASK-1, TASK-2, TASK-3 with ids 1, 2, 3 and status
  false. On an existing table without rows it inserts the same three tasks, with the
  next three ids. On a table that has a row it changes nothing; so running \<open>init_db\<close>
  again after any \<open>init_db\<close> changes nothing.
\<close>

theorem init_db_seeds_once:
  "get_all_tasks (init_db None) =
     [\<lparr>t_id = 1, t_name = ''TASK-1'', t_desc = ''First task to complete'', t_status = False\<rparr>,
      \<lparr>t_id = 2, t_name = ''TASK-2'', t_desc = ''Second task to complete'', t_status = False\<rparr>,
      \<lparr>t_id = 3, t_name = ''TASK-3'', t_desc = ''Third task to complete'', t_status = False\<rparr>] \<and>
   (tbl_rows t = [] \<longrightarrow>
      get_all_tasks (init_db (Some t)) =
        [\<lparr>t_id = tbl_seq t + 1, t_name = ''TASK-1'', t_desc = ''First task to complete'', t_status = False\<rparr>,
         \<lparr>t_id = tbl_seq t + 2, t_name = ''TASK-2'', t_desc = ''Second task to complete'', t_status = False\<rparr>,
         \<lparr>t_id = tbl_seq t + 3, t_name = ''TASK-3'', t_desc = ''Third task to complete'', t_status = False\<rparr>]) \<and>
   (tbl_rows t \<noteq> [] \<longrightarrow> init_db (Some t) = t) \<and>
   init_db (Some (init_db db)) = init_db db"
proof -
  have a: "get_all_tasks (init_db None) =
     [\<lparr>t_id = 1, t_name = ''TASK-1'', t_desc = ''First task to complete'', t_status = False\<rparr>,
      \<lparr>t_id = 2, t_name = ''TASK-2'', t_desc = ''Second task to complete'', t_status = False\<rparr>,
      \<lparr>t_id = 3, t_name = ''TASK-3'', t_desc = ''Third task to complete'', t_status = False\<rparr>]"
    by (simp add: init_db_fresh get_all_tasks_def task_of_row_def py_bool_def)
  have b: "tbl_rows t = [] \<longrightarrow>
      get_all_tasks (init_db (Some t)) =
        [\<lparr>t_id = tbl_seq t + 1, t_name = ''TASK-1'', t_desc = ''First task to complete'', t_status = False\<rparr>,
         \<lparr>t_id = tbl_seq t + 2, t_name = ''TASK-2'', t_desc = ''Second task to complete'', t_status = False\<rparr>,
         \<lparr>t_id = tbl_seq t + 3, t_name = ''TASK-3'', t_desc = ''Third task to complete'', t_status = False\<rparr>]"
    by (simp add: init_db_empty_rows get_all_tasks_def task_of_row_def py_bool_def)
  have c: "tbl_rows t \<noteq> [] \<longrightarrow> init_db (Some t) = t"
    by (simp add: init_db_nonempty_rows)
  have d: "init_db (Some (init_db db)) = init_db db"
    by (rule init_db_nonempty_rows) (rule init_db_rows_nonempty)
  from a b c d show ?thesis by blast
qed

theorem init_db_seeds_once_witness:
  "tbl_rows \<lparr>tbl_rows = [], tbl_seq = 7\<rparr> = [] \<and>
   get_all_tasks (init_db (Some \<lparr>tbl_rows = [], tbl_seq = 7\<rparr>)) =
     [\<lparr>t_id = 8, t_name = ''TASK-1'', t_desc = ''First task to complete'', t_status = False\<rparr>,
      \<lparr>t_id = 9, t_name = ''TASK-2'', t_desc = ''Second task to complete'', t_status = False\<rparr>,
      \<lparr>t_id = 10, t_name = ''TASK-3'', t_desc = ''Third task to complete'', t_status = False\<rparr>] \<and>
   tbl_rows (init_db None) \<noteq> [] \<and>
   init_db (Some (init_db None)) = init_db None"
  using init_db_seeds_once [of "\<lparr>tbl_rows = [], tbl_seq = 7\<rparr>" None]
    init_db_seeds_once [of "init_db None" None] init_db_rows_nonempty [of None]
  by simp

section \<open>An id without a row\<close>

lemma filter_id_absent: "i \<notin> row_ids t \<Longrightarrow> filter (\<lambda>r. r_id r \<noteq> i) (tbl_rows t) = tbl_rows t"
  by (auto simp: row_ids_def filter_id_conv)




lemma delete_task_absent: "i \<notin> row_ids t \<Longrightarrow> delete_task t i = (t, False)"
  by (simp add: delete_task_def sql_delete_def filter_id_absent)



section \<open>Updates\<close>

lemma find_Some_row:
  "find (\<lambda>r. r_id r = i) rs = Some r \<Longrightarrow> r \<in> set rs \<and> r_id r = i"
  by (auto simp: find_Some_iff)

lemma distinct_same_id:
  "distinct (map r_id rs) \<Longrightarrow> r \<in> set rs \<Longrightarrow> r' \<in> set rs \<Longrightarrow> r_id r = r_id r' \<Longrightarrow> r = r'"
  by (meson distinct_map inj_on_def)

lemma get_task_by_id_Some:
  "get_task_by_id t i = Some task \<Longrightarrow>
     \<exists>r. sql_select_by_id t i = Some r \<and> r \<in> set (tbl_rows t) \<and> r_id r = i \<and> task = task_of_row r"
  by (auto simp: get_task_by_id_def sql_select_by_id_def split: option.splits dest: find_Some_row)

lemma bind_bool_py_bool: "x = 0 \<or> x = 1 \<Longrightarrow> bind_bool (py_bool x) = x"
  by (auto simp: bind_bool_def py_bool_def)

lemma find_map_same_test:
  "(\<And>r. P (f r) = P r) \<Longrightarrow> find P (map f rs) = map_option f (find P rs)"
  by (induction rs) simp_all

lemma get_after_sql_update:
  assumes "sql_select_by_id t i = Some r"
  shows "get_task_by_id (sql_update t n d s i) i =
     Some \<lparr>t_id = i, t_name = n, t_desc = d, t_status = s\<rparr>"
proof -
  let ?f = "\<lambda>r. if r_id r = i then r\<lparr>r_name := n, r_desc := d, r_status := bind_bool s\<rparr> else r"
  have comp: "\<And>r. (r_id (?f r) = i) = (r_id r = i)"
    by simp
  have "r_id r = i"
    using assms by (auto simp: sql_select_by_id_def dest: find_Some_row)
  then have "find (\<lambda>r. r_id r = i) (map ?f (tbl_rows t)) =
      Some (r\<lparr>r_name := n, r_desc := d, r_status := bind_bool s\<rparr>)"
    using assms find_map_same_test [of "\<lambda>r. r_id r = i" ?f "tbl_rows t", OF comp]
    by (simp add: sql_select_by_id_def)
  then show ?thesis
    using \<open>r_id r = i\<close>
    by (simp add: get_task_by_id_def sql_select_by_id_def sql_update_def task_of_row_def
        py_bool_bind_bool)
qed

lemma update_task_found:
  assumes g: "get_task_by_id t i = Some task"
  shows "update_task t i n d s =
     (sql_update t
        (case n of Some v \<Rightarrow> v | None \<Rightarrow> t_name task)
        (case d of Some v \<Rightarrow> v | None \<Rightarrow> t_desc task)
        (case s of Some v \<Rightarrow> v | None \<Rightarrow> t_status task) i,
      Some \<lparr>t_id = i,
        t_name = (case n of Some v \<Rightarrow> v | None \<Rightarrow> t_name task),
        t_desc = (case d of Some v \<Rightarrow> v | None \<Rightarrow> t_desc task),
        t_status = (case s of Some v \<Rightarrow> v | None \<Rightarrow> t_status task)\<rparr>)"
  by (simp add: update_task_def g Let_def)

lemma get_after_update_task:
  assumes g: "get_task_by_id t i = Some task"
  shows "get_task_by_id (fst (update_task t i n d s)) i = snd (update_task t i n d s)"
proof -
  from g obtain r where "sql_select_by_id t i = Some r"
    using get_task_by_id_Some by blast
  then show ?thesis
    by (simp add: update_task_found [OF g] get_after_sql_update)
qed

lemma task_id_of_get: "get_task_by_id t i = Some task \<Longrightarrow> t_id task = i"
  by (auto dest!: get_task_by_id_Some simp: task_of_row_def)

lemma sql_update_same_when_ok:
  assumes ok: "table_ok t" and g: "get_task_by_id t i = Some task"
  shows "tbl_rows (sql_update t n (t_desc task) (t_status task) i) =
     map (\<lambda>r. if r_id r = i then r\<lparr>r_name := n\<rparr> else r) (tbl_rows t)"
proof -
  from g obtain r where r: "r \<in> set (tbl_rows t)" "r_id r = i" "task = task_of_row r"
    using get_task_by_id_Some by blast
  have uniq: "\<And>x. x \<in> set (tbl_rows t) \<Longrightarrow> r_id x = i \<Longrightarrow> x = r"
    using ok r distinct_same_id [of "tbl_rows t"] by (auto simp: table_ok_def)
  have st: "r_status r = 0 \<or> r_status r = 1"
    using ok r(1) by (auto simp: table_ok_def list_all_iff)
  have "\<And>x. x \<in> set (tbl_rows t) \<Longrightarrow> r_id x = i \<Longrightarrow>
      x\<lparr>r_name := n, r_desc := t_desc task, r_status := bind_bool (t_status task)\<rparr> = x\<lparr>r_name := n\<rparr>"
  proof -
    fix x assume "x \<in> set (tbl_rows t)" "r_id x = i"
    then have "x = r" by (rule uniq)
    then show "x\<lparr>r_name := n, r_desc := t_desc task, r_status := bind_bool (t_status task)\<rparr> = x\<lparr>r_name := n\<rparr>"
      using st by (simp add: r(3) task_of_row_def bind_bool_py_bool)
  qed
  then show ?thesis
    by (simp add: sql_update_def cong: map_cong)
qed

lemma table_ok_fresh: "table_ok (init_db None)"
  by (simp add: init_db_fresh table_ok_def)

lemma get_seed_2:
  "get_task_by_id (init_db None) 2 =
     Some \<lparr>t_id = 2, t_name = ''TASK-2'', t_desc = ''Second task to complete'', t_status = False\<rparr>"
  by (simp add: init_db_fresh get_task_by_id_def sql_select_by_id_def task_of_row_def py_bool_def)

text \<open>
  C4. For an id that has a row, \<open>update_task\<close> with no field supplied returns the
  stored task as it is, \<open>get_task_by_id\<close> returns that task afterwards, and on a
  table the program has produced (\<open>table_ok\<close>) the whole table, so also the row of the
  id, is equal to what it was.
\<close>

theorem update_without_fields_is_identity:
  assumes g: "get_task_by_id t i = Some task"
  shows "(case update_task t i None None None of
      (t', r) \<Rightarrow>
        r = Some task \<and>
        get_task_by_id t' i = Some task \<and>
        (table_ok t \<longrightarrow> t' = t))"
proof -
  have tid: "t_id task = i" using g by (rule task_id_of_get)
  have u: "update_task t i None None None =
      (sql_update t (t_name task) (t_desc task) (t_status task) i, Some task)"
    using tid by (simp add: update_task_found [OF g])
  have a: "get_task_by_id (sql_update t (t_name task) (t_desc task) (t_status task) i) i = Some task"
    using get_after_update_task [OF g, of None None None] by (simp add: u)
  have c: "table_ok t \<longrightarrow> sql_update t (t_name task) (t_desc task) (t_status task) i = t"
  proof
    assume ok: "table_ok t"
    from g obtain r where r: "r \<in> set (tbl_rows t)" "r_id r = i" "task = task_of_row r"
      using get_task_by_id_Some by blast
    have uniq: "\<And>x. x \<in> set (tbl_rows t) \<Longrightarrow> r_id x = i \<Longrightarrow> x = r"
      using ok r distinct_same_id [of "tbl_rows t"] by (auto simp: table_ok_def)
    have "map (\<lambda>x. if r_id x = i then x\<lparr>r_name := t_name task\<rparr> else x) (tbl_rows t) = tbl_rows t"
    proof (rule map_idI)
      fix x assume x: "x \<in> set (tbl_rows t)"
      show "(if r_id x = i then x\<lparr>r_name := t_name task\<rparr> else x) = x"
      proof (cases "r_id x = i")
        case True
        with x have "x = r" by (rule uniq)
        then show ?thesis by (simp add: r(3) task_of_row_def)
      next
        case False
        then show ?thesis by simp
      qed
    qed
    then have "tbl_rows (sql_update t (t_name task) (t_desc task) (t_status task) i) = tbl_rows t"
      using sql_update_same_when_ok [OF ok g, of "t_name task"] by simp
    then show "sql_update t (t_name task) (t_desc task) (t_status task) i = t"
      by (simp add: sql_update_def)
  qed
  show ?thesis
    using a c by (simp add: u)
qed

theorem update_without_fields_is_identity_witness:
  "get_task_by_id (init_db None) 2 =
     Some \<lparr>t_id = 2, t_name = ''TASK-2'', t_desc = ''Second task to complete'', t_status = False\<rparr> \<and>
   table_ok (init_db None) \<and>
   update_task (init_db None) 2 None None None =
     (init_db None,
      Some \<lparr>t_id = 2, t_name = ''TASK-2'', t_desc = ''Second task to complete'', t_status = False\<rparr>)"
  using update_without_fields_is_identity [OF get_seed_2] get_seed_2 table_ok_fresh
  by (cases "update_task (init_db None) 2 None None None") simp

text \<open>
  C5. For an id that has a row, \<open>update_task\<close> with only the name \<open>x\<close> supplied
  returns the stored task with its name replaced by \<open>x\<close> (same id, description and
  status), \<open>get_task_by_id\<close> returns that task afterwards, and on a table the program
  has produced the rows are those before with only the name column of the row of that
  id set to \<open>x\<close>.
\<close>

theorem update_name_only:
  assumes g: "get_task_by_id t i = Some task"
  shows "(case update_task t i (Some x) None None of
      (t', r) \<Rightarrow>
        r = Some (task\<lparr>t_name := x\<rparr>) \<and>
        get_task_by_id t' i = Some (task\<lparr>t_name := x\<rparr>) \<and>
        tbl_seq t' = tbl_seq t \<and>
        (table_ok t \<longrightarrow>
           tbl_rows t' = map (\<lambda>r. if r_id r = i then r\<lparr>r_name := x\<rparr> else r) (tbl_rows t)))"
proof -
  have tid: "t_id task = i" using g by (rule task_id_of_get)
  have u: "update_task t i (Some x) None None =
      (sql_update t x (t_desc task) (t_status task) i, Some (task\<lparr>t_name := x\<rparr>))"
    using tid by (simp add: update_task_found [OF g])
  have a: "get_task_by_id (sql_update t x (t_desc task) (t_status task) i) i = Some (task\<lparr>t_name := x\<rparr>)"
    using get_after_update_task [OF g, of "Some x" None None] by (simp add: u)
  have b: "tbl_seq (sql_update t x (t_desc task) (t_status task) i) = tbl_seq t"
    by (simp add: sql_update_def)
  have c: "table_ok t \<longrightarrow> tbl_rows (sql_update t x (t_desc task) (t_status task) i) =
      map (\<lambda>r. if r_id r = i then r\<lparr>r_name := x\<rparr> else r) (tbl_rows t)"
    using sql_update_same_when_ok [OF _ g] by blast
  show ?thesis
    using a b c by (simp add: u)
qed

theorem update_name_only_witness:
  "get_task_by_id (init_db None) 2 =
     Some \<lparr>t_id = 2, t_name = ''TASK-2'', t_desc = ''Second task to complete'', t_status = False\<rparr> \<and>
   table_ok (init_db None) \<and>
   update_task (init_db None) 2 (Some ''X'') None None =
     (\<lparr>tbl_rows =
        [\<lparr>r_id = 1, r_name = ''TASK-1'', r_desc = ''First task to complete'', r_status = 0\<rparr>,
         \<lparr>r_id = 2, r_name = ''X'', r_desc = ''Second task to complete'', r_status = 0\<rparr>,
         \<lparr>r_id = 3, r_name = ''TASK-3'', r_desc = ''Third task to complete'', r_status = 0\<rparr>],
       tbl_seq = 3\<rparr>,
      Some \<lparr>t_id = 2, t_name = ''X'', t_desc = ''Second task to complete'', t_status = False\<rparr>)"
proof -
  obtain t' r where u: "update_task (init_db None) 2 (Some ''X'') None None = (t', r)"
    by (cases "update_task (init_db None) 2 (Some ''X'') None None")
  have "r = Some (\<lparr>t_id = 2, t_name = ''TASK-2'', t_desc = ''Second task to complete'',
          t_status = False\<rparr>\<lparr>t_name := ''X''\<rparr>) \<and>
      tbl_seq t' = tbl_seq (init_db None) \<and>
      tbl_rows t' = map (\<lambda>r. if r_id r = 2 then r\<lparr>r_name := ''X''\<rparr> else r) (tbl_rows (init_db None))"
    using update_name_only [OF get_seed_2, of "''X''"] table_ok_fresh
    by (simp add: u)
  then have "r = Some \<lparr>t_id = 2, t_name = ''X'', t_desc = ''Second task to complete'', t_status = False\<rparr>"
    and "tbl_seq t' = 3"
    and "tbl_rows t' =
        [\<lparr>r_id = 1, r_name = ''TASK-1'', r_desc = ''First task to complete'', r_status = 0\<rparr>,
         \<lparr>r_id = 2, r_name = ''X'', r_desc = ''Second task to complete'', r_status = 0\<rparr>,
         \<lparr>r_id = 3, r_name = ''TASK-3'', r_desc = ''Third task to complete'', r_status = 0\<rparr>]"
    by (simp_all add: init_db_fresh)
  then have "t' = \<lparr>tbl_rows =
        [\<lparr>r_id = 1, r_name = ''TASK-1'', r_desc = ''First task to complete'', r_status = 0\<rparr>,
         \<lparr>r_id = 2, r_name = ''X'', r_desc = ''Second task to complete'', r_status = 0\<rparr>,
         \<lparr>r_id = 3, r_name = ''TASK-3'', r_desc = ''Third task to complete'', r_status = 0\<rparr>],
       tbl_seq = 3\<rparr>"
    by (cases t') simp
  then show ?thesis
    using get_seed_2 table_ok_fresh u \<open>r = _\<close> by simp
qed

section \<open>Deletion\<close>


lemma delete_example:
  "delete_existing_task (init_db None) 2 =
     (\<lparr>tbl_rows =
        [\<lparr>r_id = 1, r_name = ''TASK-1'', r_desc = ''First task to complete'', r_status = 0\<rparr>,
         \<lparr>r_id = 3, r_name = ''TASK-3'', r_desc = ''Third task to complete'', r_status = 0\<rparr>],
      tbl_seq = 3\<rparr>, Returns [(''message'', ''Task deleted successfully'')])"
  by (simp add: init_db_fresh delete_existing_task_def delete_task_def sql_delete_def Let_def)


section \<open>Assigned ids\<close>

lemma create_task_result:
  "create_task t n d s =
     (\<lparr>tbl_rows = tbl_rows t @ [\<lparr>r_id = next_rowid t, r_name = n, r_desc = d, r_status = bind_bool s\<rparr>],
       tbl_seq = next_rowid t\<rparr>,
      \<lparr>t_id = next_rowid t, t_name = n, t_desc = d, t_status = s\<rparr>)"
  by (simp add: create_task_def sql_insert_def Let_def)

lemma update_task_seq: "tbl_seq (fst (update_task t i n d s)) = tbl_seq t"
  by (simp add: update_task_def sql_update_def Let_def split: option.splits)

lemma delete_task_seq: "tbl_seq (fst (delete_task t i)) = tbl_seq t"
  by (simp add: delete_task_def sql_delete_def Let_def)

lemma step_seq_mono: "tbl_seq t \<le> tbl_seq (fst (step t x))"
proof (cases x)
  case (Create n d s)
  then show ?thesis
    using next_rowid_gt_seq [of t] by (simp add: create_task_result)
next
  case (Update i n d s)
  then show ?thesis
    using update_task_seq [of t i n d s] by (simp add: split_beta)
next
  case (Delete i)
  then show ?thesis
    using delete_task_seq [of t i] by (simp add: split_beta)
qed

lemma run_created_above_seq:
  "i \<in> set (created_ids (snd (run t ops))) \<Longrightarrow> tbl_seq t < i"
proof (induction ops arbitrary: t)
  case Nil
  then show ?case by simp
next
  case (Cons x xs)
  let ?t1 = "fst (step t x)"
  have mono: "tbl_seq t \<le> tbl_seq ?t1" by (rule step_seq_mono)
  have rest: "i \<in> set (created_ids (snd (run ?t1 xs))) \<Longrightarrow> tbl_seq t < i"
    using Cons.IH [of ?t1] mono by linarith
  show ?case
  proof (cases x)
    case (Create n d s)
    with Cons.prems have "i = next_rowid t \<or> i \<in> set (created_ids (snd (run ?t1 xs)))"
      by (simp add: split_beta create_task_result)
    then show ?thesis using rest next_rowid_gt_seq [of t] by auto
  next
    case (Update j n d s)
    with Cons.prems have "i \<in> set (created_ids (snd (run ?t1 xs)))"
      by (simp add: split_beta)
    then show ?thesis by (rule rest)
  next
    case (Delete j)
    with Cons.prems have "i \<in> set (created_ids (snd (run ?t1 xs)))"
      by (simp add: split_beta)
    then show ?thesis by (rule rest)
  qed
qed

lemma run_created_sorted: "sorted_wrt (<) (created_ids (snd (run t ops)))"
proof (induction ops arbitrary: t)
  case Nil
  show ?case by simp
next
  case (Cons x xs)
  let ?t1 = "fst (step t x)"
  show ?case
  proof (cases x)
    case (Create n d s)
    then have seq1: "tbl_seq ?t1 = next_rowid t"
      by (simp add: create_task_result)
    have "\<forall>i \<in> set (created_ids (snd (run ?t1 xs))). next_rowid t < i"
      using run_created_above_seq [of _ ?t1 xs] seq1 by simp
    then show ?thesis
      using Cons.IH [of ?t1] Create by (simp add: split_beta create_task_result)
  next
    case (Update j n d s)
    then show ?thesis using Cons.IH [of ?t1] by (simp add: split_beta)
  next
    case (Delete j)
    then show ?thesis using Cons.IH [of ?t1] by (simp add: split_beta)
  qed
qed

lemma table_ok_row_le_seq: "table_ok t \<Longrightarrow> r \<in> set (tbl_rows t) \<Longrightarrow> r_id r \<le> tbl_seq t"
  by (simp add: table_ok_def list_all_iff)

text \<open>
  C7. In every sequence of creates, updates and deletes, from every table, the ids the
  creates return are strictly increasing in the order of the calls, hence pairwise
  different whatever was deleted in between; each is greater than the counter of the
  starting table, which no id assigned before exceeds, and on a table the program has
  produced greater than the id of every row present at the start.
\<close>

theorem ids_increase_never_reused:
  "(case run t ops of
      (t', rs) \<Rightarrow>
        sorted_wrt (<) (created_ids rs) \<and>
        distinct (created_ids rs) \<and>
        (\<forall>i \<in> set (created_ids rs). tbl_seq t < i) \<and>
        (table_ok t \<longrightarrow> (\<forall>i \<in> set (created_ids rs). \<forall>r \<in> set (tbl_rows t). r_id r < i)))"
proof -
  have a: "sorted_wrt (<) (created_ids (snd (run t ops)))"
    by (rule run_created_sorted)
  then have b: "distinct (created_ids (snd (run t ops)))"
    by (simp add: strict_sorted_iff)
  have c: "\<forall>i \<in> set (created_ids (snd (run t ops))). tbl_seq t < i"
    using run_created_above_seq by blast
  have d: "table_ok t \<longrightarrow>
      (\<forall>i \<in> set (created_ids (snd (run t ops))). \<forall>r \<in> set (tbl_rows t). r_id r < i)"
    using c table_ok_row_le_seq [of t] by fastforce
  show ?thesis
    using a b c d by (simp add: split_beta)
qed

theorem ids_increase_never_reused_witness:
  "table_ok (init_db None) \<and>
   run (init_db None) [Create ''a'' ''b'' True, Delete 4, Create ''c'' ''d'' False] =
     (\<lparr>tbl_rows =
        [\<lparr>r_id = 1, r_name = ''TASK-1'', r_desc = ''First task to complete'', r_status = 0\<rparr>,
         \<lparr>r_id = 2, r_name = ''TASK-2'', r_desc = ''Second task to complete'', r_status = 0\<rparr>,
         \<lparr>r_id = 3, r_name = ''TASK-3'', r_desc = ''Third task to complete'', r_status = 0\<rparr>,
         \<lparr>r_id = 5, r_name = ''c'', r_desc = ''d'', r_status = 0\<rparr>],
       tbl_seq = 5\<rparr>,
      [Created \<lparr>t_id = 4, t_name = ''a'', t_desc = ''b'', t_status = True\<rparr>,
       Deleted 4 True,
       Created \<lparr>t_id = 5, t_name = ''c'', t_desc = ''d'', t_status = False\<rparr>]) \<and>
   sorted_wrt (<) [4, 5 :: int] \<and> distinct [4, 5 :: int] \<and>
   tbl_seq (init_db None) < 4 \<and> tbl_seq (init_db None) < 5"
proof -
  have r: "run (init_db None) [Create ''a'' ''b'' True, Delete 4, Create ''c'' ''d'' False] =
     (\<lparr>tbl_rows =
        [\<lparr>r_id = 1, r_name = ''TASK-1'', r_desc = ''First task to complete'', r_status = 0\<rparr>,
         \<lparr>r_id = 2, r_name = ''TASK-2'', r_desc = ''Second task to complete'', r_status = 0\<rparr>,
         \<lparr>r_id = 3, r_name = ''TASK-3'', r_desc = ''Third task to complete'', r_status = 0\<rparr>,
         \<lparr>r_id = 5, r_name = ''c'', r_desc = ''d'', r_status = 0\<rparr>],
       tbl_seq = 5\<rparr>,
      [Created \<lparr>t_id = 4, t_name = ''a'', t_desc = ''b'', t_status = True\<rparr>,
       Deleted 4 True,
       Created \<lparr>t_id = 5, t_name = ''c'', t_desc = ''d'', t_status = False\<rparr>])"
    by (simp add: init_db_fresh create_task_result next_rowid_def delete_task_def sql_delete_def
        bind_bool_def Let_def)
  have th: "sorted_wrt (<) [4, 5 :: int] \<and> distinct [4, 5 :: int] \<and>
      tbl_seq (init_db None) < 4 \<and> tbl_seq (init_db None) < 5"
    using ids_increase_never_reused [of "init_db None"
        "[Create ''a'' ''b'' True, Delete 4, Create ''c'' ''d'' False]", unfolded r]
    by simp
  show ?thesis
    using th r table_ok_fresh by blast
qed

section \<open>The listing after a sequence of operations\<close>

lemma length_filter_remove_one:
  "distinct (map r_id rs) \<Longrightarrow> i \<in> set (map r_id rs) \<Longrightarrow>
     Suc (length (filter (\<lambda>r. r_id r \<noteq> i) rs)) = length rs"
proof (induction rs)
  case Nil
  then show ?case by simp
next
  case (Cons a rs)
  show ?case
  proof (cases "r_id a = i")
    case True
    with Cons.prems have "i \<notin> set (map r_id rs)" by auto
    then have "filter (\<lambda>r. r_id r \<noteq> i) rs = rs"
      by (auto simp: filter_id_conv)
    with True show ?thesis by simp
  next
    case False
    with Cons show ?thesis by auto
  qed
qed

lemma delete_task_result:
  "delete_task t i =
     (t\<lparr>tbl_rows := filter (\<lambda>r. r_id r \<noteq> i) (tbl_rows t)\<rparr>,
      length (filter (\<lambda>r. r_id r \<noteq> i) (tbl_rows t)) < length (tbl_rows t))"
  by (simp add: delete_task_def sql_delete_def Let_def)

lemma delete_task_True_present:
  "snd (delete_task t i) \<Longrightarrow> i \<in> row_ids t"
proof (rule ccontr)
  assume d: "snd (delete_task t i)" and "i \<notin> row_ids t"
  then have "delete_task t i = (t, False)" by (simp add: delete_task_absent)
  with d show False by simp
qed

lemma step_keeps_agreement:
  assumes dist: "distinct (map r_id (tbl_rows t))"
    and agree: "\<forall>r \<in> set (tbl_rows t). m (r_id r) = Some (task_of_row r)"
    and dom: "dom m = row_ids t"
    and ok: "every_delete_removed [snd (step t x)]"
  shows "distinct (map r_id (tbl_rows (fst (step t x)))) \<and>
     (\<forall>r \<in> set (tbl_rows (fst (step t x))). last_written m [snd (step t x)] (r_id r) = Some (task_of_row r)) \<and>
     dom (last_written m [snd (step t x)]) = row_ids (fst (step t x)) \<and>
     length (tbl_rows (fst (step t x))) + count_deletes [x] = length (tbl_rows t) + count_creates [x]"
proof (cases x)
  case (Create n d s)
  have fresh: "\<forall>r \<in> set (tbl_rows t). r_id r \<noteq> next_rowid t"
    using next_rowid_gt_row [of _ t] by fastforce
  then have "next_rowid t \<notin> r_id ` set (tbl_rows t)" by auto
  with Create dist agree dom fresh show ?thesis
    by (auto simp: create_task_result row_ids_def task_of_row_def py_bool_bind_bool)
next
  case (Update i n d s)
  show ?thesis
  proof (cases "get_task_by_id t i")
    case None
    with Update dist agree dom show ?thesis
      by (simp add: update_task_def)
  next
    case (Some task)
    let ?n = "case n of Some v \<Rightarrow> v | None \<Rightarrow> t_name task"
    let ?d = "case d of Some v \<Rightarrow> v | None \<Rightarrow> t_desc task"
    let ?s = "case s of Some v \<Rightarrow> v | None \<Rightarrow> t_status task"
    let ?f = "\<lambda>r. if r_id r = i then r\<lparr>r_name := ?n, r_desc := ?d, r_status := bind_bool ?s\<rparr> else r"
    have ids: "map r_id (map ?f (tbl_rows t)) = map r_id (tbl_rows t)"
      by (induction "tbl_rows t") auto
    have ids_f: "map (r_id \<circ> ?f) (tbl_rows t) = map r_id (tbl_rows t)"
      using ids by simp
    from Some obtain r0 where "r0 \<in> set (tbl_rows t)" "r_id r0 = i"
      using get_task_by_id_Some by blast
    then have present: "i \<in> row_ids t" by (auto simp: row_ids_def)
    have st: "step t x = (t\<lparr>tbl_rows := map ?f (tbl_rows t)\<rparr>,
        Updated (Some \<lparr>t_id = i, t_name = ?n, t_desc = ?d, t_status = ?s\<rparr>))"
      using Update by (simp add: update_task_found [OF Some] sql_update_def)
    have a: "distinct (map r_id (tbl_rows (fst (step t x))))"
      using dist by (simp add: st ids_f)
    have b: "\<forall>r \<in> set (tbl_rows (fst (step t x))).
        last_written m [snd (step t x)] (r_id r) = Some (task_of_row r)"
      using agree by (auto simp: st task_of_row_def py_bool_bind_bool)
    have c: "dom (last_written m [snd (step t x)]) = row_ids (fst (step t x))"
      using dom present ids_f by (auto simp: st row_ids_def)
    have d: "length (tbl_rows (fst (step t x))) + count_deletes [x] =
        length (tbl_rows t) + count_creates [x]"
    proof -
      have "count_deletes [x] = 0" and "count_creates [x] = 0"
        using Update by simp_all
      then show ?thesis by (simp add: st)
    qed
    from a b c d show ?thesis by blast
  qed
next
  case (Delete i)
  from ok Delete have del: "snd (delete_task t i)"
    by (simp add: split_beta)
  then have present: "i \<in> set (map r_id (tbl_rows t))"
    using delete_task_True_present [of t i] by (simp add: row_ids_def)
  have st: "step t x = (t\<lparr>tbl_rows := filter (\<lambda>r. r_id r \<noteq> i) (tbl_rows t)\<rparr>, Deleted i True)"
    using Delete del by (simp add: delete_task_result)
  have a: "distinct (map r_id (tbl_rows (fst (step t x))))"
    using dist by (simp add: st distinct_map_filter)
  have b: "\<forall>r \<in> set (tbl_rows (fst (step t x))).
      last_written m [snd (step t x)] (r_id r) = Some (task_of_row r)"
    using agree by (simp add: st)
  have c: "dom (last_written m [snd (step t x)]) = row_ids (fst (step t x))"
    using dom by (auto simp: st row_ids_def)
  have d: "length (tbl_rows (fst (step t x))) + count_deletes [x] =
      length (tbl_rows t) + count_creates [x]"
  proof -
    have "count_deletes [x] = 1" and "count_creates [x] = 0"
      using Delete by simp_all
    then show ?thesis
      using length_filter_remove_one [OF dist present] by (simp add: st)
  qed
  from a b c d show ?thesis by blast
qed

lemma last_written_Cons: "last_written m (r # rs) = last_written (last_written m [r]) rs"
proof (cases r)
  case (Created task)
  then show ?thesis by simp
next
  case (Updated u)
  then show ?thesis by (cases u) simp_all
next
  case (Deleted i deleted)
  then show ?thesis by (cases deleted) simp_all
qed

lemma every_delete_removed_Cons:
  "every_delete_removed (r # rs) = (every_delete_removed [r] \<and> every_delete_removed rs)"
  by (cases r) simp_all

lemma count_creates_Cons: "count_creates (x # xs) = count_creates [x] + count_creates xs"
  by (cases x) simp_all

lemma count_deletes_Cons: "count_deletes (x # xs) = count_deletes [x] + count_deletes xs"
  by (cases x) simp_all

lemma run_step: "run t (x # xs) = (fst (run (fst (step t x)) xs), snd (step t x) # snd (run (fst (step t x)) xs))"
  by (simp add: split_beta)

lemma run_keeps_agreement:
  assumes "distinct (map r_id (tbl_rows t))"
    and "\<forall>r \<in> set (tbl_rows t). m (r_id r) = Some (task_of_row r)"
    and "dom m = row_ids t"
    and "every_delete_removed (snd (run t ops))"
  shows "distinct (map r_id (tbl_rows (fst (run t ops)))) \<and>
     (\<forall>r \<in> set (tbl_rows (fst (run t ops))).
        last_written m (snd (run t ops)) (r_id r) = Some (task_of_row r)) \<and>
     dom (last_written m (snd (run t ops))) = row_ids (fst (run t ops)) \<and>
     length (tbl_rows (fst (run t ops))) + count_deletes ops = length (tbl_rows t) + count_creates ops"
  using assms
proof (induction ops arbitrary: t m)
  case Nil
  then show ?case by simp
next
  case (Cons x xs)
  let ?t1 = "fst (step t x)" and ?r = "snd (step t x)"
  let ?m1 = "last_written m [?r]"
  have run: "fst (run t (x # xs)) = fst (run ?t1 xs)"
    "snd (run t (x # xs)) = ?r # snd (run ?t1 xs)"
    by (simp_all only: run_step fst_conv snd_conv)
  from Cons.prems(4) have ok1: "every_delete_removed [?r]"
    and ok2: "every_delete_removed (snd (run ?t1 xs))"
    using every_delete_removed_Cons [of ?r "snd (run ?t1 xs)"] by (simp_all only: run)
  note s1 = step_keeps_agreement [OF Cons.prems(1) Cons.prems(2) Cons.prems(3) ok1]
  from s1 have d1: "distinct (map r_id (tbl_rows ?t1))"
    and a1: "\<forall>r \<in> set (tbl_rows ?t1). ?m1 (r_id r) = Some (task_of_row r)"
    and m1: "dom ?m1 = row_ids ?t1"
    and l1: "length (tbl_rows ?t1) + count_deletes [x] = length (tbl_rows t) + count_creates [x]"
    by blast+
  note ih = Cons.IH [OF d1 a1 m1 ok2]
  have lw: "last_written m (?r # snd (run ?t1 xs)) = last_written ?m1 (snd (run ?t1 xs))"
    by (rule last_written_Cons)
  from ih have l2: "length (tbl_rows (fst (run ?t1 xs))) + count_deletes xs =
      length (tbl_rows ?t1) + count_creates xs"
    by blast
  have len: "length (tbl_rows (fst (run ?t1 xs))) + count_deletes (x # xs) =
      length (tbl_rows t) + count_creates (x # xs)"
    using l1 l2 count_creates_Cons [of x xs] count_deletes_Cons [of x xs] by linarith
  show ?case
    using ih len by (simp only: run lw) blast
qed

text \<open>
  C8. Start from a table without rows and run any sequence of creates, updates and
  deletes in which every delete removes a row (it is aimed at an id present at that
  moment, so the deleted ids are different). With N creates and M deletes, M is at most
  N, \<open>get_all_tasks\<close> returns exactly N - M tasks, their ids are pairwise different,
  each returned task is the last state written for its id, and the ids listed are
  exactly the ids that have a last written state.
\<close>

theorem listing_after_creates_and_deletes:
  assumes empty: "tbl_rows t = []"
  shows "(case run t ops of
      (t', rs) \<Rightarrow>
        every_delete_removed rs \<longrightarrow>
          length (get_all_tasks t') = count_creates ops - count_deletes ops \<and>
          count_deletes ops \<le> count_creates ops \<and>
          distinct (map t_id (get_all_tasks t')) \<and>
          (\<forall>task \<in> set (get_all_tasks t'). last_written Map.empty rs (t_id task) = Some task) \<and>
          dom (last_written Map.empty rs) = set (map t_id (get_all_tasks t')))"
proof -
  let ?t' = "fst (run t ops)" and ?rs = "snd (run t ops)"
  have "every_delete_removed ?rs \<longrightarrow>
          length (get_all_tasks ?t') = count_creates ops - count_deletes ops \<and>
          count_deletes ops \<le> count_creates ops \<and>
          distinct (map t_id (get_all_tasks ?t')) \<and>
          (\<forall>task \<in> set (get_all_tasks ?t'). last_written Map.empty ?rs (t_id task) = Some task) \<and>
          dom (last_written Map.empty ?rs) = set (map t_id (get_all_tasks ?t'))"
  proof
    assume ok: "every_delete_removed ?rs"
    have inv: "distinct (map r_id (tbl_rows ?t')) \<and>
       (\<forall>r \<in> set (tbl_rows ?t'). last_written Map.empty ?rs (r_id r) = Some (task_of_row r)) \<and>
       dom (last_written Map.empty ?rs) = row_ids ?t' \<and>
       length (tbl_rows ?t') + count_deletes ops = length (tbl_rows t) + count_creates ops"
      using empty by (intro run_keeps_agreement ok) (simp_all add: row_ids_def)
    have tid: "map t_id (get_all_tasks ?t') = map r_id (tbl_rows ?t')"
      by (simp add: get_all_tasks_def task_of_row_def)
    have len: "length (get_all_tasks ?t') + count_deletes ops = count_creates ops"
      using inv empty by (simp add: get_all_tasks_def)
    have agree: "\<forall>task \<in> set (get_all_tasks ?t'). last_written Map.empty ?rs (t_id task) = Some task"
      using inv by (auto simp: get_all_tasks_def task_of_row_def)
    show "length (get_all_tasks ?t') = count_creates ops - count_deletes ops \<and>
          count_deletes ops \<le> count_creates ops \<and>
          distinct (map t_id (get_all_tasks ?t')) \<and>
          (\<forall>task \<in> set (get_all_tasks ?t'). last_written Map.empty ?rs (t_id task) = Some task) \<and>
          dom (last_written Map.empty ?rs) = set (map t_id (get_all_tasks ?t'))"
      using inv len agree by (simp add: tid row_ids_def)
  qed
  then show ?thesis by (simp add: split_beta)
qed

lemma run_example:
  "run empty_table
     [Create ''a'' ''first'' False, Create ''b'' ''second'' False,
      Update 1 (Some ''x'') None (Some True), Delete 2, Create ''c'' ''third'' False] =
   (\<lparr>tbl_rows =
       [\<lparr>r_id = 1, r_name = ''x'', r_desc = ''first'', r_status = 1\<rparr>,
        \<lparr>r_id = 3, r_name = ''c'', r_desc = ''third'', r_status = 0\<rparr>],
      tbl_seq = 3\<rparr>,
    [Created \<lparr>t_id = 1, t_name = ''a'', t_desc = ''first'', t_status = False\<rparr>,
     Created \<lparr>t_id = 2, t_name = ''b'', t_desc = ''second'', t_status = False\<rparr>,
     Updated (Some \<lparr>t_id = 1, t_name = ''x'', t_desc = ''first'', t_status = True\<rparr>),
     Deleted 2 True,
     Created \<lparr>t_id = 3, t_name = ''c'', t_desc = ''third'', t_status = False\<rparr>])"
  by (simp add: empty_table_def create_task_result next_rowid_def delete_task_def sql_delete_def
      update_task_def get_task_by_id_def sql_select_by_id_def sql_update_def task_of_row_def
      bind_bool_def py_bool_def Let_def)

theorem listing_after_creates_and_deletes_witness:
  "tbl_rows empty_table = [] \<and>
   run empty_table
     [Create ''a'' ''first'' False, Create ''b'' ''second'' False,
      Update 1 (Some ''x'') None (Some True), Delete 2, Create ''c'' ''third'' False] =
   (\<lparr>tbl_rows =
       [\<lparr>r_id = 1, r_name = ''x'', r_desc = ''first'', r_status = 1\<rparr>,
        \<lparr>r_id = 3, r_name = ''c'', r_desc = ''third'', r_status = 0\<rparr>],
      tbl_seq = 3\<rparr>,
    [Created \<lparr>t_id = 1, t_name = ''a'', t_desc = ''first'', t_status = False\<rparr>,
     Created \<lparr>t_id = 2, t_name = ''b'', t_desc = ''second'', t_status = False\<rparr>,
     Updated (Some \<lparr>t_id = 1, t_name = ''x'', t_desc = ''first'', t_status = True\<rparr>),
     Deleted 2 True,
     Created \<lparr>t_id = 3, t_name = ''c'', t_desc = ''third'', t_status = False\<rparr>]) \<and>
   every_delete_removed
     [Created \<lparr>t_id = 1, t_name = ''a'', t_desc = ''first'', t_status = False\<rparr>,
      Created \<lparr>t_id = 2, t_name = ''b'', t_desc = ''second'', t_status = False\<rparr>,
      Updated (Some \<lparr>t_id = 1, t_name = ''x'', t_desc = ''first'', t_status = True\<rparr>),
      Deleted 2 True,
      Created \<lparr>t_id = 3, t_name = ''c'', t_desc = ''third'', t_status = False\<rparr>] \<and>
   get_all_tasks
     \<lparr>tbl_rows =
       [\<lparr>r_id = 1, r_name = ''x'', r_desc = ''first'', r_status = 1\<rparr>,
        \<lparr>r_id = 3, r_name = ''c'', r_desc = ''third'', r_status = 0\<rparr>],
      tbl_seq = 3\<rparr> =
     [\<lparr>t_id = 1, t_name = ''x'', t_desc = ''first'', t_status = True\<rparr>,
      \<lparr>t_id = 3, t_name = ''c'', t_desc = ''third'', t_status = False\<rparr>] \<and>
   length (get_all_tasks
     \<lparr>tbl_rows =
       [\<lparr>r_id = 1, r_name = ''x'', r_desc = ''first'', r_status = 1\<rparr>,
        \<lparr>r_id = 3, r_name = ''c'', r_desc = ''third'', r_status = 0\<rparr>],
      tbl_seq = 3\<rparr>) = 3 - 1"
proof -
  have e: "tbl_rows empty_table = []"
    by (simp add: empty_table_def)
  have l: "get_all_tasks
     \<lparr>tbl_rows =
       [\<lparr>r_id = 1, r_name = ''x'', r_desc = ''first'', r_status = 1\<rparr>,
        \<lparr>r_id = 3, r_name = ''c'', r_desc = ''third'', r_status = 0\<rparr>],
      tbl_seq = 3\<rparr> =
     [\<lparr>t_id = 1, t_name = ''x'', t_desc = ''first'', t_status = True\<rparr>,
      \<lparr>t_id = 3, t_name = ''c'', t_desc = ''third'', t_status = False\<rparr>]"
    by (simp add: get_all_tasks_def task_of_row_def py_bool_def)
  have len: "length (get_all_tasks
     \<lparr>tbl_rows =
       [\<lparr>r_id = 1, r_name = ''x'', r_desc = ''first'', r_status = 1\<rparr>,
        \<lparr>r_id = 3, r_name = ''c'', r_desc = ''third'', r_status = 0\<rparr>],
      tbl_seq = 3\<rparr>) = 3 - 1"
    using listing_after_creates_and_deletes [OF e,
        of "[Create ''a'' ''first'' False, Create ''b'' ''second'' False,
             Update 1 (Some ''x'') None (Some True), Delete 2, Create ''c'' ''third'' False]",
        unfolded run_example]
    by simp
  have ok: "every_delete_removed
     [Created \<lparr>t_id = 1, t_name = ''a'', t_desc = ''first'', t_status = False\<rparr>,
      Created \<lparr>t_id = 2, t_name = ''b'', t_desc = ''second'', t_status = False\<rparr>,
      Updated (Some \<lparr>t_id = 1, t_name = ''x'', t_desc = ''first'', t_status = True\<rparr>),
      Deleted 2 True,
      Created \<lparr>t_id = 3, t_name = ''c'', t_desc = ''third'', t_status = False\<rparr>]"
    by simp
  show ?thesis
    using e run_example ok l len by blast
qed

section \<open>The invariant of the table is kept\<close>

lemma table_ok_create: "table_ok t \<Longrightarrow> table_ok (fst (create_task t n d s))"
proof -
  assume ok: "table_ok t"
  have lt: "\<forall>r \<in> set (tbl_rows t). r_id r < next_rowid t"
    using next_rowid_gt_row [of _ t] by blast
  then have "next_rowid t \<notin> r_id ` set (tbl_rows t)" by auto
  moreover have "\<forall>r \<in> set (tbl_rows t). r_id r \<le> next_rowid t"
    using lt by auto
  ultimately show ?thesis
    using ok by (auto simp: table_ok_def list_all_iff create_task_result bind_bool_def)
qed

lemma table_ok_update: "table_ok t \<Longrightarrow> table_ok (fst (update_task t i n d s))"
proof (cases "get_task_by_id t i")
  case None
  assume "table_ok t"
  with None show ?thesis by (simp add: update_task_def)
next
  case (Some task)
  assume ok: "table_ok t"
  let ?f = "\<lambda>r. if r_id r = i then r\<lparr>r_name := case n of Some v \<Rightarrow> v | None \<Rightarrow> t_name task,
      r_desc := case d of Some v \<Rightarrow> v | None \<Rightarrow> t_desc task,
      r_status := bind_bool (case s of Some v \<Rightarrow> v | None \<Rightarrow> t_status task)\<rparr> else r"
  have ids: "map (r_id \<circ> ?f) (tbl_rows t) = map r_id (tbl_rows t)"
    by (rule map_cong) auto
  have rows: "tbl_rows (fst (update_task t i n d s)) = map ?f (tbl_rows t)"
    and seq: "tbl_seq (fst (update_task t i n d s)) = tbl_seq t"
    by (simp_all add: update_task_found [OF Some] sql_update_def)
  have a: "distinct (map r_id (map ?f (tbl_rows t)))"
    using ok by (simp only: map_map ids) (simp add: table_ok_def)
  have b: "\<forall>r \<in> set (map ?f (tbl_rows t)). r_id r \<le> tbl_seq t \<and> (r_status r = 0 \<or> r_status r = 1)"
    using ok by (auto simp: table_ok_def list_all_iff bind_bool_def)
  show ?thesis
    using a b by (simp only: table_ok_def rows seq list_all_iff)
qed

lemma table_ok_delete: "table_ok t \<Longrightarrow> table_ok (fst (delete_task t i))"
  by (auto simp: delete_task_result table_ok_def list_all_iff distinct_map_filter)

lemma table_ok_step: "table_ok t \<Longrightarrow> table_ok (fst (step t x))"
  by (cases x) (simp_all add: split_beta table_ok_create table_ok_update table_ok_delete)

lemma table_ok_init_db: "table_ok t \<Longrightarrow> table_ok (init_db (Some t))"
proof (cases "tbl_rows t = []")
  case True
  then show ?thesis by (simp add: init_db_empty_rows table_ok_def)
next
  case False
  assume "table_ok t"
  with False show ?thesis by (simp add: init_db_nonempty_rows)
qed

lemma table_ok_handle: "table_ok t \<Longrightarrow> table_ok (handle t r)"
proof (cases r)
  case (POST_tasks c)
  assume "table_ok t"
  then show ?thesis
    using table_ok_create [of t "c_name c" "c_desc c" "c_status c"] POST_tasks
    by (simp add: create_new_task_def split_beta)
next
  case (PUT_task i u)
  assume "table_ok t"
  then show ?thesis
    using table_ok_update [of t i "u_name u" "u_desc u" "u_status u"] PUT_task
    by (simp add: update_existing_task_def split_beta split: option.splits)
next
  case (DELETE_task i)
  assume "table_ok t"
  then show ?thesis
    using table_ok_delete [of t i] DELETE_task
    by (simp add: delete_existing_task_def split_beta)
qed simp_all

lemma table_ok_serve: "table_ok t \<Longrightarrow> table_ok (serve t reqs)"
  unfolding serve_def by (induction reqs arbitrary: t) (simp_all add: table_ok_handle)

section \<open>Names of stored tasks\<close>

lemma names_nonempty_rows: "names_nonempty t = (\<forall>r \<in> set (tbl_rows t). r_name r \<noteq> [])"
  by (simp add: names_nonempty_def get_all_tasks_def task_of_row_def list_all_iff)

lemma names_nonempty_handle:
  assumes inv: "names_nonempty t" and sup: "\<forall>n \<in> set (supplied_names r). n \<noteq> []"
  shows "names_nonempty (handle t r)"
proof (cases r)
  case (POST_tasks c)
  with inv sup show ?thesis
    by (auto simp: names_nonempty_rows create_new_task_def create_task_result)
next
  case (PUT_task i u)
  show ?thesis
  proof (cases "get_task_by_id t i")
    case None
    with inv PUT_task show ?thesis
      by (simp add: update_existing_task_def update_task_def)
  next
    case (Some task)
    then obtain r0 where r0: "r0 \<in> set (tbl_rows t)" "task = task_of_row r0"
      using get_task_by_id_Some by blast
    then have stored: "t_name task \<noteq> []"
      using inv by (simp add: names_nonempty_rows task_of_row_def)
    have new: "(case u_name u of Some v \<Rightarrow> v | None \<Rightarrow> t_name task) \<noteq> []"
      using sup stored PUT_task by (cases "u_name u") simp_all
    show ?thesis
      using inv new PUT_task
      by (auto simp: names_nonempty_rows update_existing_task_def update_task_found [OF Some]
          sql_update_def)
  qed
next
  case (DELETE_task i)
  with inv show ?thesis
    by (auto simp: names_nonempty_rows delete_existing_task_def delete_task_result)
qed (use inv in simp_all)

lemma names_nonempty_serve:
  "names_nonempty t \<Longrightarrow> \<forall>r \<in> set reqs. \<forall>n \<in> set (supplied_names r). n \<noteq> [] \<Longrightarrow>
     names_nonempty (serve t reqs)"
  unfolding serve_def
  by (induction reqs arbitrary: t) (simp_all add: names_nonempty_handle)

lemma names_nonempty_fresh: "names_nonempty (init_db None)"
  by (simp add: names_nonempty_rows init_db_fresh)

text \<open>
  C9, as the code has it. The endpoints store the name a request supplies as it is,
  with no check that it is not empty (the counterexample below: a create and an update
  with the empty string as name). What holds: when every name supplied by the creates
  and updates of a sequence of requests is non-empty, every task stored after the
  sequence has a non-empty name, from the freshly initialised database and from every
  table whose names are non-empty.
\<close>

theorem stored_names_nonempty_if_supplied_nonempty:
  assumes "\<forall>r \<in> set reqs. \<forall>n \<in> set (supplied_names r). n \<noteq> []"
  shows "names_nonempty (serve (init_db None) reqs) \<and>
     (names_nonempty t \<longrightarrow> names_nonempty (serve t reqs))"
  using assms names_nonempty_fresh names_nonempty_serve by blast

text \<open>
  The claim C9 as stated fails: after \<^verbatim>\<open>POST /tasks\<close> with the empty string as
  name the listing holds a task with an empty name, and \<^verbatim>\<open>PUT /tasks/1\<close> with the
  empty string as name empties the name of a seed task.
\<close>

theorem empty_name_is_stored:
  "get_all_tasks (serve (init_db None) [POST_tasks \<lparr>c_name = '''', c_desc = ''d'', c_status = False\<rparr>]) =
     [\<lparr>t_id = 1, t_name = ''TASK-1'', t_desc = ''First task to complete'', t_status = False\<rparr>,
      \<lparr>t_id = 2, t_name = ''TASK-2'', t_desc = ''Second task to complete'', t_status = False\<rparr>,
      \<lparr>t_id = 3, t_name = ''TASK-3'', t_desc = ''Third task to complete'', t_status = False\<rparr>,
      \<lparr>t_id = 4, t_name = '''', t_desc = ''d'', t_status = False\<rparr>] \<and>
   get_task_by_id
     (serve (init_db None) [PUT_task 1 \<lparr>u_name = Some '''', u_desc = None, u_status = None\<rparr>]) 1 =
     Some \<lparr>t_id = 1, t_name = '''', t_desc = ''First task to complete'', t_status = False\<rparr>"
  by (simp add: serve_def init_db_fresh create_new_task_def create_task_result next_rowid_def
      update_existing_task_def update_task_def sql_update_def
      get_all_tasks_def get_task_by_id_def sql_select_by_id_def task_of_row_def
      bind_bool_def py_bool_def Let_def)

theorem stored_names_nonempty_if_supplied_nonempty_witness:
  "names_nonempty
     (serve (init_db None)
        [POST_tasks \<lparr>c_name = ''n'', c_desc = '''', c_status = True\<rparr>,
         PUT_task 1 \<lparr>u_name = Some ''m'', u_desc = None, u_status = None\<rparr>,
         PUT_task 2 \<lparr>u_name = None, u_desc = Some '''', u_status = None\<rparr>,
         DELETE_task 3]) \<and>
   names_nonempty (init_db None) \<and>
   supplied_names (POST_tasks \<lparr>c_name = ''n'', c_desc = '''', c_status = True\<rparr>) = [''n''] \<and>
   supplied_names (PUT_task 1 \<lparr>u_name = Some ''m'', u_desc = None, u_status = None\<rparr>) = [''m''] \<and>
   supplied_names (PUT_task 2 \<lparr>u_name = None, u_desc = Some '''', u_status = None\<rparr>) = [] \<and>
   supplied_names (DELETE_task 3) = []"
proof -
  have h: "\<forall>r \<in> set [POST_tasks \<lparr>c_name = ''n'', c_desc = '''', c_status = True\<rparr>,
         PUT_task 1 \<lparr>u_name = Some ''m'', u_desc = None, u_status = None\<rparr>,
         PUT_task 2 \<lparr>u_name = None, u_desc = Some '''', u_status = None\<rparr>,
         DELETE_task 3]. \<forall>n \<in> set (supplied_names r). n \<noteq> []"
    by simp
  show ?thesis
    using stored_names_nonempty_if_supplied_nonempty [OF h, of "init_db None"] names_nonempty_fresh
    by simp
qed

section \<open>The merge of an update\<close>

text \<open>
  C10. For an id that has a row, \<open>update_task\<close> returns and stores the task whose
  name, description and status are each the argument when it is \<open>Some v\<close> and the
  stored value when it is \<open>None\<close>; the result is a task with all fields present (its
  fields and the columns of the row have no null value). A status of \<open>Some False\<close> is
  applied: the task is stored with status false whatever it was. At the endpoint a
  field that is absent from the body and a field that is \<^verbatim>\<open>null\<close> give the same
  \<^verbatim>\<open>TaskUpdate\<close>, so the same table and the same response, and both keep the stored
  value.
\<close>

theorem update_merge_keeps_stored_when_none:
  assumes g: "get_task_by_id t i = Some task"
  shows "(case update_task t i n d s of
      (t', r) \<Rightarrow>
        r = Some \<lparr>t_id = i,
              t_name = (case n of None \<Rightarrow> t_name task | Some v \<Rightarrow> v),
              t_desc = (case d of None \<Rightarrow> t_desc task | Some v \<Rightarrow> v),
              t_status = (case s of None \<Rightarrow> t_status task | Some v \<Rightarrow> v)\<rparr> \<and>
        get_task_by_id t' i = r) \<and>
     (case update_task t i None None (Some False) of
      (t', r) \<Rightarrow>
        r = Some (task\<lparr>t_status := False\<rparr>) \<and>
        get_task_by_id t' i = Some (task\<lparr>t_status := False\<rparr>)) \<and>
     (case update_existing_task t i (parse_TaskUpdate fn fd fs) of
      (t', response) \<Rightarrow>
        response = Returns \<lparr>t_id = i,
              t_name = (case fn of Supplied v \<Rightarrow> v | Null \<Rightarrow> t_name task | Omitted \<Rightarrow> t_name task),
              t_desc = (case fd of Supplied v \<Rightarrow> v | Null \<Rightarrow> t_desc task | Omitted \<Rightarrow> t_desc task),
              t_status = (case fs of Supplied v \<Rightarrow> v | Null \<Rightarrow> t_status task | Omitted \<Rightarrow> t_status task)\<rparr> \<and>
        get_task t' i = response) \<and>
     update_existing_task t i (parse_TaskUpdate Null fd fs) =
       update_existing_task t i (parse_TaskUpdate Omitted fd fs) \<and>
     update_existing_task t i (parse_TaskUpdate fn Null fs) =
       update_existing_task t i (parse_TaskUpdate fn Omitted fs) \<and>
     update_existing_task t i (parse_TaskUpdate fn fd Null) =
       update_existing_task t i (parse_TaskUpdate fn fd Omitted)"
proof -
  have tid: "t_id task = i" using g by (rule task_id_of_get)
  have a: "(case update_task t i n d s of
      (t', r) \<Rightarrow>
        r = Some \<lparr>t_id = i,
              t_name = (case n of None \<Rightarrow> t_name task | Some v \<Rightarrow> v),
              t_desc = (case d of None \<Rightarrow> t_desc task | Some v \<Rightarrow> v),
              t_status = (case s of None \<Rightarrow> t_status task | Some v \<Rightarrow> v)\<rparr> \<and>
        get_task_by_id t' i = r)" for n d s
    using get_after_update_task [OF g, of n d s]
    by (simp add: update_task_found [OF g])
  have b: "(case update_task t i None None (Some False) of
      (t', r) \<Rightarrow>
        r = Some (task\<lparr>t_status := False\<rparr>) \<and>
        get_task_by_id t' i = Some (task\<lparr>t_status := False\<rparr>))"
    using get_after_update_task [OF g, of None None "Some False"] tid
    by (simp add: update_task_found [OF g])
  have nm: "(case optional_default_None f of None \<Rightarrow> x | Some v \<Rightarrow> v) =
      (case f of Supplied v \<Rightarrow> v | Null \<Rightarrow> x | Omitted \<Rightarrow> x)" for f :: "'a field" and x
    by (cases f) simp_all
  have e: "(case update_existing_task t i (parse_TaskUpdate fn fd fs) of
      (t', response) \<Rightarrow>
        response = Returns \<lparr>t_id = i,
              t_name = (case fn of Supplied v \<Rightarrow> v | Null \<Rightarrow> t_name task | Omitted \<Rightarrow> t_name task),
              t_desc = (case fd of Supplied v \<Rightarrow> v | Null \<Rightarrow> t_desc task | Omitted \<Rightarrow> t_desc task),
              t_status = (case fs of Supplied v \<Rightarrow> v | Null \<Rightarrow> t_status task | Omitted \<Rightarrow> t_status task)\<rparr> \<and>
        get_task t' i = response)"
    using a [of "optional_default_None fn" "optional_default_None fd" "optional_default_None fs"]
    by (simp add: update_existing_task_def parse_TaskUpdate_def get_task_def nm split_beta
        update_task_found [OF g])
  have c: "update_existing_task t i (parse_TaskUpdate Null fd fs) =
       update_existing_task t i (parse_TaskUpdate Omitted fd fs)"
    "update_existing_task t i (parse_TaskUpdate fn Null fs) =
       update_existing_task t i (parse_TaskUpdate fn Omitted fs)"
    "update_existing_task t i (parse_TaskUpdate fn fd Null) =
       update_existing_task t i (parse_TaskUpdate fn fd Omitted)"
    by (simp_all add: parse_TaskUpdate_def)
  from a [of n d s] b c e show ?thesis by blast
qed

lemma get_completed_task:
  "get_task_by_id
     \<lparr>tbl_rows = [\<lparr>r_id = 1, r_name = ''TASK-1'', r_desc = ''First task to complete'', r_status = 1\<rparr>],
      tbl_seq = 1\<rparr> 1 =
   Some \<lparr>t_id = 1, t_name = ''TASK-1'', t_desc = ''First task to complete'', t_status = True\<rparr>"
  by (simp add: get_task_by_id_def sql_select_by_id_def task_of_row_def py_bool_def)

lemma mark_incomplete_example:
  "update_existing_task
     \<lparr>tbl_rows = [\<lparr>r_id = 1, r_name = ''TASK-1'', r_desc = ''First task to complete'', r_status = 1\<rparr>],
      tbl_seq = 1\<rparr> 1 (parse_TaskUpdate Null Omitted (Supplied False)) =
   (\<lparr>tbl_rows = [\<lparr>r_id = 1, r_name = ''TASK-1'', r_desc = ''First task to complete'', r_status = 0\<rparr>],
      tbl_seq = 1\<rparr>,
    Returns \<lparr>t_id = 1, t_name = ''TASK-1'', t_desc = ''First task to complete'', t_status = False\<rparr>)"
  by (simp add: update_existing_task_def parse_TaskUpdate_def update_task_def get_task_by_id_def
      sql_select_by_id_def task_of_row_def py_bool_def sql_update_def bind_bool_def Let_def)

theorem update_merge_keeps_stored_when_none_witness:
  "get_task_by_id
     \<lparr>tbl_rows = [\<lparr>r_id = 1, r_name = ''TASK-1'', r_desc = ''First task to complete'', r_status = 1\<rparr>],
      tbl_seq = 1\<rparr> 1 =
     Some \<lparr>t_id = 1, t_name = ''TASK-1'', t_desc = ''First task to complete'', t_status = True\<rparr> \<and>
   update_existing_task
     \<lparr>tbl_rows = [\<lparr>r_id = 1, r_name = ''TASK-1'', r_desc = ''First task to complete'', r_status = 1\<rparr>],
      tbl_seq = 1\<rparr> 1 (parse_TaskUpdate Null Omitted (Supplied False)) =
   (\<lparr>tbl_rows = [\<lparr>r_id = 1, r_name = ''TASK-1'', r_desc = ''First task to complete'', r_status = 0\<rparr>],
      tbl_seq = 1\<rparr>,
    Returns \<lparr>t_id = 1, t_name = ''TASK-1'', t_desc = ''First task to complete'', t_status = False\<rparr>) \<and>
   get_task
     \<lparr>tbl_rows = [\<lparr>r_id = 1, r_name = ''TASK-1'', r_desc = ''First task to complete'', r_status = 0\<rparr>],
      tbl_seq = 1\<rparr> 1 =
     Returns \<lparr>t_id = 1, t_name = ''TASK-1'', t_desc = ''First task to complete'', t_status = False\<rparr>"
proof -
  have "get_task
     \<lparr>tbl_rows = [\<lparr>r_id = 1, r_name = ''TASK-1'', r_desc = ''First task to complete'', r_status = 0\<rparr>],
      tbl_seq = 1\<rparr> 1 =
     Returns \<lparr>t_id = 1, t_name = ''TASK-1'', t_desc = ''First task to complete'', t_status = False\<rparr>"
    using update_merge_keeps_stored_when_none [OF get_completed_task,
        of None None None Null Omitted "Supplied False", unfolded mark_incomplete_example]
    by simp
  then show ?thesis
    using get_completed_task mark_incomplete_example by blast
qed

end
